theory Spec2Isabelle
  imports Complex_Main
begin

section \<open>The light service: data model\<close>

text \<open>
  The development embeds the class \<open>LightService\<close> (lights, groups, the two id counters and
  every public method). A JavaScript \<open>number\<close> used as an id or a counter is an \<open>int\<close>:
  the code only stores ids, looks them up and adds one to a counter, and a counter is taken
  never to reach the range where a \<open>number\<close> stops being exact. A brightness is a
  \<open>number\<close> in full, with its infinities and \<open>NaN\<close>, since \<open>setBrightness\<close> compares
  whatever \<open>number\<close> it is given. The delay of a time string that does not parse is
  \<open>NaN\<close> as well, written \<open>None\<close>. The member array of a group is a list value: every call of \<open>createGroup\<close>
  is taken to receive an array of its own, as the request handler passes it. Console output
  is not part of the model.
\<close>

datatype LightColor = white | blue | red | green | yellow

text \<open>The string literal type \<open>'on' | 'off'\<close>, used for a light's status and for an action.\<close>

datatype on_off = On | Off

text \<open>
  A \<open>number\<close> as a value to store and compare: a finite one (every finite double is a
  real, and comparing doubles is comparing the reals they are), an infinity, or \<open>NaN\<close>.
  \<open>js_less\<close> is the operator \<open><\<close>; \<open>a > b\<close> is \<open>js_less b a\<close>. Every comparison
  with \<open>NaN\<close> is false.
\<close>

datatype number = Finite real | PosInfinity | NegInfinity | NaN

fun js_less :: "number \<Rightarrow> number \<Rightarrow> bool" where
  "js_less (Finite x) (Finite y) = (x < y)"
| "js_less (Finite x) PosInfinity = True"
| "js_less NegInfinity (Finite y) = True"
| "js_less NegInfinity PosInfinity = True"
| "js_less _ _ = False"

record Light =
  idL :: int
  status :: on_off
  brightness :: number
  color :: LightColor

record LightGroup =
  idG :: int
  name :: string
  lightIds :: "int list"

record LightService =
  lights :: "int \<rightharpoonup> Light"
  groups :: "int \<rightharpoonup> LightGroup"
  groupIdCounter :: int
  lightIdCounter :: int

text \<open>
  Every failure of the service is \<open>throw new Error(msg)\<close> with one of four messages; the
  constructors stand for the four messages. An operation returns its outcome together with
  the state it leaves behind, so that what a call has already written when it throws stays
  visible.
\<close>

datatype error =
  LightNotFound | GroupNotFound | BrightnessOutOfRange | ScheduledTimeNotFuture

fun message :: "error \<Rightarrow> string" where
  "message LightNotFound = ''Light not found''"
| "message GroupNotFound = ''Group not found''"
| "message BrightnessOutOfRange = ''Brightness should be between 0 and 100''"
| "message ScheduledTimeNotFuture = ''Scheduled time must be in the future''"

type_synonym 'a outcome = "(error + 'a) \<times> LightService"

text \<open>The constructor: two seeded lights, no group, counters at 1 and 3.\<close>

definition defaultLight :: "int \<Rightarrow> Light" where
  "defaultLight i = \<lparr>idL = i, status = Off, brightness = Finite 0, color = white\<rparr>"

definition initial :: LightService where
  "initial = \<lparr>lights = [1 \<mapsto> defaultLight 1, 2 \<mapsto> defaultLight 2],
              groups = Map.empty, groupIdCounter = 1, lightIdCounter = 3\<rparr>"

section \<open>Operations on single lights\<close>

definition getAllLights :: "LightService \<Rightarrow> (int \<rightharpoonup> Light)" where
  "getAllLights s = lights s"

definition getLight :: "int \<Rightarrow> LightService \<Rightarrow> Light option" where
  "getLight i s = lights s i"

definition verifyLightExists :: "LightService \<Rightarrow> int \<Rightarrow> error + unit" where
  "verifyLightExists s i = (case lights s i of None \<Rightarrow> Inl LightNotFound | Some _ \<Rightarrow> Inr ())"

definition turnOn :: "int \<Rightarrow> LightService \<Rightarrow> unit outcome" where
  "turnOn i s =
     (case verifyLightExists s i of
        Inl e \<Rightarrow> (Inl e, s)
      | Inr _ \<Rightarrow> (Inr (), s\<lparr>lights := (lights s)(i \<mapsto> (the (lights s i))\<lparr>status := On\<rparr>)\<rparr>))"

definition turnOff :: "int \<Rightarrow> LightService \<Rightarrow> unit outcome" where
  "turnOff i s =
     (case verifyLightExists s i of
        Inl e \<Rightarrow> (Inl e, s)
      | Inr _ \<Rightarrow> (Inr (), s\<lparr>lights := (lights s)(i \<mapsto> (the (lights s i))\<lparr>status := Off\<rparr>)\<rparr>))"

definition setBrightness :: "int \<Rightarrow> number \<Rightarrow> LightService \<Rightarrow> unit outcome" where
  "setBrightness i b s =
     (case verifyLightExists s i of
        Inl e \<Rightarrow> (Inl e, s)
      | Inr _ \<Rightarrow>
          if js_less b (Finite 0) \<or> js_less (Finite 100) b then (Inl BrightnessOutOfRange, s)
          else (Inr (), s\<lparr>lights := (lights s)(i \<mapsto> (the (lights s i))\<lparr>brightness := b\<rparr>)\<rparr>))"

definition setColor :: "int \<Rightarrow> LightColor \<Rightarrow> LightService \<Rightarrow> unit outcome" where
  "setColor i c s =
     (case verifyLightExists s i of
        Inl e \<Rightarrow> (Inl e, s)
      | Inr _ \<Rightarrow> (Inr (), s\<lparr>lights := (lights s)(i \<mapsto> (the (lights s i))\<lparr>color := c\<rparr>)\<rparr>))"

definition addLight :: "LightService \<Rightarrow> int outcome" where
  "addLight s =
     (let newLightId = lightIdCounter s
      in (Inr newLightId,
          s\<lparr>lights := (lights s)(newLightId \<mapsto> defaultLight newLightId),
            lightIdCounter := newLightId + 1\<rparr>))"

section \<open>Operations on groups\<close>

text \<open>\<open>lightIds.forEach(id => this.verifyLightExists(id))\<close>: the first absent id throws.\<close>

fun verifyEach :: "LightService \<Rightarrow> int list \<Rightarrow> error + unit" where
  "verifyEach s [] = Inr ()"
| "verifyEach s (i # is) =
     (case verifyLightExists s i of Inl e \<Rightarrow> Inl e | Inr _ \<Rightarrow> verifyEach s is)"

definition createGroup :: "string \<Rightarrow> int list \<Rightarrow> LightService \<Rightarrow> int outcome" where
  "createGroup nm ids s =
     (case verifyEach s ids of
        Inl e \<Rightarrow> (Inl e, s)
      | Inr _ \<Rightarrow>
          (let groupId = groupIdCounter s
           in (Inr groupId,
               s\<lparr>groups := (groups s)(groupId \<mapsto> \<lparr>idG = groupId, name = nm, lightIds = ids\<rparr>),
                 groupIdCounter := groupId + 1\<rparr>)))"

text \<open>
  The loop of \<open>controlGroup\<close>: each member is switched in list order; a throw of
  \<open>turnOn\<close>/\<open>turnOff\<close> leaves the loop with the state reached so far.
\<close>

fun controlEach :: "on_off \<Rightarrow> int list \<Rightarrow> LightService \<Rightarrow> unit outcome" where
  "controlEach a [] s = (Inr (), s)"
| "controlEach a (i # is) s =
     (case (case a of On \<Rightarrow> turnOn i s | Off \<Rightarrow> turnOff i s) of
        (Inl e, s') \<Rightarrow> (Inl e, s')
      | (Inr _, s') \<Rightarrow> controlEach a is s')"

definition controlGroup :: "int \<Rightarrow> on_off \<Rightarrow> LightService \<Rightarrow> unit outcome" where
  "controlGroup groupId a s =
     (case groups s groupId of
        None \<Rightarrow> (Inl GroupNotFound, s)
      | Some g \<Rightarrow> controlEach a (lightIds g) s)"

definition addLightToGroup :: "int \<Rightarrow> int \<Rightarrow> LightService \<Rightarrow> unit outcome" where
  "addLightToGroup groupId lightId s =
     (case verifyLightExists s lightId of
        Inl e \<Rightarrow> (Inl e, s)
      | Inr _ \<Rightarrow>
          (case groups s groupId of
             None \<Rightarrow> (Inl GroupNotFound, s)
           | Some g \<Rightarrow>
               if lightId \<notin> set (lightIds g)
               then (Inr (), s\<lparr>groups := (groups s)(groupId \<mapsto> g\<lparr>lightIds := lightIds g @ [lightId]\<rparr>)\<rparr>)
               else (Inr (), s)))"

definition removeLightFromGroup :: "int \<Rightarrow> int \<Rightarrow> LightService \<Rightarrow> unit outcome" where
  "removeLightFromGroup groupId lightId s =
     (case groups s groupId of
        None \<Rightarrow> (Inl GroupNotFound, s)
      | Some g \<Rightarrow>
          (Inr (), s\<lparr>groups := (groups s)(groupId \<mapsto>
                        g\<lparr>lightIds := filter (\<lambda>i. i \<noteq> lightId) (lightIds g)\<rparr>)\<rparr>))"

text \<open>
  \<open>deleteLightFromGroup\<close> is, despite its name, the deletion of a light from the system:
  the id is filtered out of every group, then the light is deleted.
\<close>

definition deleteLightFromGroup :: "int \<Rightarrow> LightService \<Rightarrow> unit outcome" where
  "deleteLightFromGroup lightId s =
     (case verifyLightExists s lightId of
        Inl e \<Rightarrow> (Inl e, s)
      | Inr _ \<Rightarrow>
          (Inr (), s\<lparr>groups := (\<lambda>k. map_option
                                  (\<lambda>g. g\<lparr>lightIds := filter (\<lambda>i. i \<noteq> lightId) (lightIds g)\<rparr>)
                                  (groups s k)),
                     lights := (lights s)(lightId := None)\<rparr>))"

definition deleteGroup :: "int \<Rightarrow> LightService \<Rightarrow> unit outcome" where
  "deleteGroup groupId s =
     (case groups s groupId of
        None \<Rightarrow> (Inl GroupNotFound, s)
      | Some _ \<Rightarrow> (Inr (), s\<lparr>groups := (groups s)(groupId := None)\<rparr>))"

definition saveState :: "LightService \<Rightarrow> unit outcome" where
  "saveState s = (Inr (), s)"

definition loadState :: "LightService \<Rightarrow> unit outcome" where
  "loadState s = (Inr (), s)"

section \<open>Scheduling\<close>

text \<open>
  \<open>calculateDelay\<close> reads the clock and parses the time string. Both belong to the
  environment and are parameters here: \<open>now\<close> is the clock reading in milliseconds and
  \<open>parse\<close> gives the milliseconds of a time string, \<open>None\<close> where \<open>getTime()\<close> is
  \<open>NaN\<close> (the string is no date). The difference with \<open>NaN\<close> is \<open>NaN\<close>, and
  \<open>NaN < 0\<close> is false.
\<close>

definition calculateDelay :: "int \<Rightarrow> (string \<Rightarrow> int option) \<Rightarrow> string \<Rightarrow> int option" where
  "calculateDelay now parse time =
     (case parse time of None \<Rightarrow> None | Some targetTime \<Rightarrow> Some (targetTime - now))"

text \<open>What \<open>setTimeout\<close> is handed: the delay, and the light and action of the callback.\<close>

record Timer =
  delay :: "int option"
  target :: int
  action :: on_off

definition scheduleAction ::
  "int \<Rightarrow> (string \<Rightarrow> int option) \<Rightarrow> int \<Rightarrow> string \<Rightarrow> on_off \<Rightarrow> LightService \<Rightarrow> Timer outcome" where
  "scheduleAction now parse i time a s =
     (case verifyLightExists s i of
        Inl e \<Rightarrow> (Inl e, s)
      | Inr _ \<Rightarrow>
          (let d = calculateDelay now parse time
           in if (case d of None \<Rightarrow> False | Some ms \<Rightarrow> ms < 0)
              then (Inl ScheduledTimeNotFuture, s)
              else (Inr \<lparr>delay = d, target = i, action = a\<rparr>, s)))"

text \<open>The callback of a timer, when it runs: \<open>turnOn\<close> or \<open>turnOff\<close> on the light.\<close>

definition fire :: "Timer \<Rightarrow> LightService \<Rightarrow> unit outcome" where
  "fire t s = (case action t of On \<Rightarrow> turnOn (target t) s | Off \<Rightarrow> turnOff (target t) s)"

section \<open>Sequences of calls\<close>

text \<open>
  A call of a public method with its arguments. \<open>ScheduleAction\<close> carries the clock reading
  at the call; \<open>Fire\<close> is a timer callback running between two calls.
\<close>

datatype call =
    GetAllLights
  | GetLight int
  | TurnOn int
  | TurnOff int
  | SetBrightness int number
  | SetColor int LightColor
  | CreateGroup string "int list"
  | ControlGroup int on_off
  | ScheduleAction int int string on_off
  | Fire Timer
  | AddLightToGroup int int
  | RemoveLightFromGroup int int
  | DeleteLightFromGroup int
  | DeleteGroup int
  | AddLight
  | SaveState
  | LoadState

datatype ret =
    Done
  | LightId int
  | GroupId int
  | ALight "Light option"
  | AllLights "int \<Rightarrow> Light option"
  | Scheduled Timer

definition returning :: "('a \<Rightarrow> ret) \<Rightarrow> 'a outcome \<Rightarrow> ret outcome" where
  "returning f r = (map_sum (\<lambda>e. e) f (fst r), snd r)"

fun exec :: "(string \<Rightarrow> int option) \<Rightarrow> call \<Rightarrow> LightService \<Rightarrow> ret outcome" where
  "exec parse GetAllLights s = (Inr (AllLights (getAllLights s)), s)"
| "exec parse (GetLight i) s = (Inr (ALight (getLight i s)), s)"
| "exec parse (TurnOn i) s = returning (\<lambda>_. Done) (turnOn i s)"
| "exec parse (TurnOff i) s = returning (\<lambda>_. Done) (turnOff i s)"
| "exec parse (SetBrightness i b) s = returning (\<lambda>_. Done) (setBrightness i b s)"
| "exec parse (SetColor i c) s = returning (\<lambda>_. Done) (setColor i c s)"
| "exec parse (CreateGroup nm ids) s = returning GroupId (createGroup nm ids s)"
| "exec parse (ControlGroup g a) s = returning (\<lambda>_. Done) (controlGroup g a s)"
| "exec parse (ScheduleAction now i time a) s = returning Scheduled (scheduleAction now parse i time a s)"
| "exec parse (Fire t) s = returning (\<lambda>_. Done) (fire t s)"
| "exec parse (AddLightToGroup g i) s = returning (\<lambda>_. Done) (addLightToGroup g i s)"
| "exec parse (RemoveLightFromGroup g i) s = returning (\<lambda>_. Done) (removeLightFromGroup g i s)"
| "exec parse (DeleteLightFromGroup i) s = returning (\<lambda>_. Done) (deleteLightFromGroup i s)"
| "exec parse (DeleteGroup g) s = returning (\<lambda>_. Done) (deleteGroup g s)"
| "exec parse AddLight s = returning LightId (addLight s)"
| "exec parse SaveState s = returning (\<lambda>_. Done) (saveState s)"
| "exec parse LoadState s = returning (\<lambda>_. Done) (loadState s)"

text \<open>
  Running a sequence of calls: the service keeps serving after a call has thrown, from the
  state the throw left. The outcomes are collected in the order of the calls.
\<close>

fun run :: "(string \<Rightarrow> int option) \<Rightarrow> call list \<Rightarrow> LightService \<Rightarrow> (error + ret) list \<times> LightService" where
  "run parse [] s = ([], s)"
| "run parse (c # cs) s =
     (let (r, s') = exec parse c s; (rs, s'') = run parse cs s' in (r # rs, s''))"

definition final :: "(string \<Rightarrow> int option) \<Rightarrow> call list \<Rightarrow> LightService" where
  "final parse cs = snd (run parse cs initial)"

text \<open>The ids that the \<open>addLight\<close> calls of a sequence returned, in call order.\<close>

fun allocated :: "(error + ret) list \<Rightarrow> int list" where
  "allocated [] = []"
| "allocated (Inr (LightId i) # rs) = i # allocated rs"
| "allocated (_ # rs) = allocated rs"

section \<open>Error kinds and state predicates\<close>

text \<open>
  The specification sorts the failures of the service into two kinds: not-found, when a
  referenced light or group id does not exist, and invalid-argument, when a value is outside
  its allowed range or a scheduling time lies in the past. The code has no kinds, only the
  four messages; \<open>spec_kind\<close> is the specification's sorting applied to them, to compare
  the outcomes of the code with the kinds the specification names.
\<close>

datatype error_kind = NotFound | InvalidArgument

fun spec_kind :: "error \<Rightarrow> error_kind" where
  "spec_kind LightNotFound = NotFound"
| "spec_kind GroupNotFound = NotFound"
| "spec_kind BrightnessOutOfRange = InvalidArgument"
| "spec_kind ScheduledTimeNotFuture = InvalidArgument"

text \<open>
  The range the specification and the comments of the code give a brightness: a number
  from 0 to 100, both included.
\<close>

definition within_0_100 :: "number \<Rightarrow> bool" where
  "within_0_100 b = (case b of Finite r \<Rightarrow> 0 \<le> r \<and> r \<le> 100 | _ \<Rightarrow> False)"

text \<open>Referential integrity: every member of every group is a light of the store.\<close>

definition members_exist :: "LightService \<Rightarrow> bool" where
  "members_exist s = (\<forall>k g. groups s k = Some g \<longrightarrow> (\<forall>i \<in> set (lightIds g). lights s i \<noteq> None))"

text \<open>No group lists a light twice.\<close>

definition members_distinct :: "LightService \<Rightarrow> bool" where
  "members_distinct s = (\<forall>k g. groups s k = Some g \<longrightarrow> distinct (lightIds g))"

text \<open>Every light of the store has an id below the light id counter.\<close>

definition ids_below_counter :: "LightService \<Rightarrow> bool" where
  "ids_below_counter s = (\<forall>i. lights s i \<noteq> None \<longrightarrow> i < lightIdCounter s)"

text \<open>The lights map after the lights with an id in \<open>A\<close> have been given status \<open>a\<close>.\<close>

definition switched :: "on_off \<Rightarrow> int set \<Rightarrow> (int \<rightharpoonup> Light) \<Rightarrow> (int \<rightharpoonup> Light)" where
  "switched a A m = (\<lambda>k. if k \<in> A then map_option (\<lambda>l. l\<lparr>status := a\<rparr>) (m k) else m k)"

text \<open>
  Two states used as concrete inputs. In \<open>dangling\<close> the only group lists light 9, which
  the store does not hold. \<open>doubled\<close> is the state after \<open>createGroup("G", [1, 1])\<close> on
  the seeded service.
\<close>

definition dangling :: LightService where
  "dangling = initial\<lparr>groups := [1 \<mapsto> \<lparr>idG = 1, name = ''G'', lightIds = [1, 9, 2]\<rparr>]\<rparr>"

definition doubled :: LightService where
  "doubled = snd (createGroup ''G'' [1, 1] initial)"

section \<open>Basic facts about the operations\<close>

lemma verify_None: "lights s i = None \<Longrightarrow> verifyLightExists s i = Inl LightNotFound"
  by (simp add: verifyLightExists_def)

lemma verify_Some: "lights s i = Some l \<Longrightarrow> verifyLightExists s i = Inr ()"
  by (simp add: verifyLightExists_def)

lemma verifyEach_missing:
  "\<exists>i \<in> set ids. lights s i = None \<Longrightarrow> verifyEach s ids = Inl LightNotFound"
  by (induction ids) (auto simp: verifyLightExists_def split: option.splits)

lemma verifyEach_present:
  "\<forall>i \<in> set ids. lights s i \<noteq> None \<Longrightarrow> verifyEach s ids = Inr ()"
  by (induction ids) (auto simp: verifyLightExists_def split: option.splits)

lemma verifyEach_Inr: "verifyEach s ids = Inr u \<Longrightarrow> \<forall>i \<in> set ids. lights s i \<noteq> None"
  by (induction ids) (auto simp: verifyLightExists_def split: option.splits sum.splits)

text \<open>Both branches of the loop body of \<open>controlGroup\<close> at once.\<close>

lemma switch_eq:
  "(case a of On \<Rightarrow> turnOn i s | Off \<Rightarrow> turnOff i s) =
     (case lights s i of
        None \<Rightarrow> (Inl LightNotFound, s)
      | Some l \<Rightarrow> (Inr (), s\<lparr>lights := (lights s)(i \<mapsto> l\<lparr>status := a\<rparr>)\<rparr>))"
  by (simp add: turnOn_def turnOff_def verifyLightExists_def split: on_off.split option.split)

lemma switched_step:
  "m i = Some l \<Longrightarrow> switched a A (m(i \<mapsto> l\<lparr>status := a\<rparr>)) = switched a (insert i A) m"
  by (auto simp: switched_def fun_eq_iff)

lemma controlEach_present:
  "\<forall>i \<in> set xs. lights s i \<noteq> None \<Longrightarrow>
     controlEach a xs s = (Inr (), s\<lparr>lights := switched a (set xs) (lights s)\<rparr>)"
proof (induction xs arbitrary: s)
  case Nil
  have "switched a {} (lights s) = lights s" by (simp add: switched_def)
  then show ?case by simp
next
  case (Cons i xs)
  then obtain l where l: "lights s i = Some l" by auto
  let ?s1 = "s\<lparr>lights := (lights s)(i \<mapsto> l\<lparr>status := a\<rparr>)\<rparr>"
  have "\<forall>j \<in> set xs. lights ?s1 j \<noteq> None" using Cons.prems by simp
  then have "controlEach a xs ?s1 = (Inr (), ?s1\<lparr>lights := switched a (set xs) (lights ?s1)\<rparr>)"
    by (rule Cons.IH)
  then show ?case using l by (simp add: switch_eq switched_step)
qed

lemma controlEach_missing:
  "lights s m = None \<Longrightarrow> controlEach a (m # rest) s = (Inl LightNotFound, s)"
  by (simp add: switch_eq)

lemma controlEach_append:
  "controlEach a (xs @ ys) s =
     (case controlEach a xs s of (Inl e, s') \<Rightarrow> (Inl e, s') | (Inr _, s') \<Rightarrow> controlEach a ys s')"
  by (induction xs arbitrary: s) (auto split: prod.splits sum.splits)

text \<open>The loop touches nothing but the lights, and neither adds nor removes one.\<close>

lemma controlEach_frame:
  "groups (snd (controlEach a xs s)) = groups s
   \<and> groupIdCounter (snd (controlEach a xs s)) = groupIdCounter s
   \<and> lightIdCounter (snd (controlEach a xs s)) = lightIdCounter s
   \<and> (\<forall>i. lights (snd (controlEach a xs s)) i = None \<longleftrightarrow> lights s i = None)"
proof (induction xs arbitrary: s)
  case Nil
  show ?case by simp
next
  case (Cons i xs)
  show ?case
  proof (cases "lights s i")
    case None
    then show ?thesis by (simp add: switch_eq)
  next
    case (Some l)
    then show ?thesis
      using Cons.IH [of "s\<lparr>lights := (lights s)(i \<mapsto> l\<lparr>status := a\<rparr>)\<rparr>"]
      by (simp add: switch_eq)
  qed
qed

lemma controlGroup_frame:
  "groups (snd (controlGroup k a s)) = groups s
   \<and> groupIdCounter (snd (controlGroup k a s)) = groupIdCounter s
   \<and> lightIdCounter (snd (controlGroup k a s)) = lightIdCounter s
   \<and> (\<forall>i. lights (snd (controlGroup k a s)) i = None \<longleftrightarrow> lights s i = None)"
  by (cases "groups s k") (simp_all add: controlGroup_def controlEach_frame)

lemmas op_defs =
  returning_def turnOn_def turnOff_def setBrightness_def setColor_def createGroup_def
  controlGroup_def scheduleAction_def fire_def addLightToGroup_def removeLightFromGroup_def
  deleteLightFromGroup_def deleteGroup_def saveState_def loadState_def addLight_def
  getLight_def getAllLights_def

lemma run_snd_Cons: "snd (run parse (c # cs) s) = snd (run parse cs (snd (exec parse c s)))"
  by (simp add: split_beta)

lemma run_fst_Cons:
  "fst (run parse (c # cs) s) = fst (exec parse c s) # fst (run parse cs (snd (exec parse c s)))"
  by (simp add: split_beta)

section \<open>Single lights\<close>

text \<open>
  C10. Where light \<open>i\<close> exists, \<open>turnOn i\<close> and \<open>turnOff i\<close> succeed and change nothing
  but the status of that light: its id, brightness and color, every other light, the groups
  and both counters are as before.
\<close>

theorem turnOn_turnOff_frame:
  "lights s i = Some l \<longrightarrow>
     (\<exists>s' l'. turnOn i s = (Inr (), s')
        \<and> lights s' i = Some l' \<and> status l' = On
        \<and> idL l' = idL l \<and> brightness l' = brightness l \<and> color l' = color l
        \<and> (\<forall>j. j \<noteq> i \<longrightarrow> lights s' j = lights s j)
        \<and> groups s' = groups s
        \<and> groupIdCounter s' = groupIdCounter s \<and> lightIdCounter s' = lightIdCounter s)
   \<and> (\<exists>s' l'. turnOff i s = (Inr (), s')
        \<and> lights s' i = Some l' \<and> status l' = Off
        \<and> idL l' = idL l \<and> brightness l' = brightness l \<and> color l' = color l
        \<and> (\<forall>j. j \<noteq> i \<longrightarrow> lights s' j = lights s j)
        \<and> groups s' = groups s
        \<and> groupIdCounter s' = groupIdCounter s \<and> lightIdCounter s' = lightIdCounter s)"
  by (simp add: turnOn_def turnOff_def verify_Some)

text \<open>
  C10, at the seeded service: light 1 is switched on, keeps its brightness, and light 2 and
  the light id counter are untouched.
\<close>

theorem turnOn_turnOff_frame_witness:
  "lights initial 1 = Some (defaultLight 1)
   \<and> fst (turnOn 1 initial) = Inr ()
   \<and> map_option status (lights (snd (turnOn 1 initial)) 1) = Some On
   \<and> map_option brightness (lights (snd (turnOn 1 initial)) 1) = Some (Finite 0)
   \<and> lights (snd (turnOn 1 initial)) 2 = lights initial 2
   \<and> lightIdCounter (snd (turnOn 1 initial)) = 3"
proof -
  have h: "lights initial 1 = Some (defaultLight 1)"
    by (simp add: initial_def)
  have d: "brightness (defaultLight 1) = Finite 0" "lightIdCounter initial = 3"
    by (simp_all add: defaultLight_def initial_def)
  from h d turnOn_turnOff_frame [of initial 1 "defaultLight 1"] show ?thesis
    by auto
qed

text \<open>
  What \<open>setBrightness\<close> does with each \<open>number\<close>. Where light \<open>i\<close> exists: a
  brightness from 0 to 100 is stored; one below 0 or above 100, the infinities included, is
  refused with the brightness error and the state stays as it was; \<open>NaN\<close> passes both
  comparisons and is stored. Where light \<open>i\<close> is absent the call fails with the
  light-not-found error, whatever the brightness.
\<close>

lemma setBrightness_outcomes:
  "(lights s i = Some l \<and> within_0_100 b \<longrightarrow>
      (\<exists>s'. setBrightness i b s = (Inr (), s')
         \<and> map_option brightness (getLight i s') = Some b))
   \<and> (lights s i = Some l \<and> (js_less b (Finite 0) \<or> js_less (Finite 100) b) \<longrightarrow>
      setBrightness i b s = (Inl BrightnessOutOfRange, s)
      \<and> spec_kind BrightnessOutOfRange = InvalidArgument)
   \<and> (lights s i = Some l \<and> b = NaN \<longrightarrow>
      (\<exists>s'. setBrightness i b s = (Inr (), s')
         \<and> map_option brightness (getLight i s') = Some NaN))
   \<and> (lights s i = None \<longrightarrow>
      setBrightness i b s = (Inl LightNotFound, s) \<and> spec_kind LightNotFound = NotFound)"
  by (cases b)
    (auto simp: setBrightness_def verify_Some verify_None getLight_def within_0_100_def)

text \<open>A \<open>number\<close> is refused by the two comparisons exactly if it is neither in the range nor \<open>NaN\<close>.\<close>

lemma setBrightness_guard:
  "(js_less b (Finite 0) \<or> js_less (Finite 100) b) = (\<not> within_0_100 b \<and> b \<noteq> NaN)"
  by (cases b) (auto simp: within_0_100_def)

text \<open>
  C7 fails on the code. \<open>NaN\<close> is a \<open>number\<close> outside the range from 0 to 100, and light 1
  exists in the seeded service, yet \<open>setBrightness(1, NaN)\<close> does not fail: neither
  \<open>NaN < 0\<close> nor \<open>NaN > 100\<close> holds, so the call returns normally and \<open>getLight(1)\<close>
  then has brightness \<open>NaN\<close>. For every other \<open>number\<close> the claim holds
  (\<open>setBrightness_outcomes\<close>).
\<close>

theorem setBrightness_accepts_NaN:
  "lights initial 1 \<noteq> None
   \<and> \<not> within_0_100 NaN
   \<and> \<not> js_less NaN (Finite 0) \<and> \<not> js_less (Finite 100) NaN
   \<and> fst (setBrightness 1 NaN initial) = Inr ()
   \<and> map_option brightness (getLight 1 (snd (setBrightness 1 NaN initial))) = Some NaN
   \<and> setBrightness 1 NaN initial \<noteq> (Inl BrightnessOutOfRange, initial)"
  by (simp add: setBrightness_def verifyLightExists_def getLight_def within_0_100_def initial_def)

section \<open>Groups\<close>

text \<open>
  C1 as stated does not hold: \<open>createGroup("G", [1, 999])\<close> on the seeded service, where
  light 999 does not exist, fails with the message of \<open>verifyLightExists\<close>, \<open>Light not found\<close>,
  which is a not-found failure and not an invalid-argument one.
\<close>

theorem createGroup_not_invalid_argument:
  "lights initial 999 = None
   \<and> createGroup ''G'' [1, 999] initial = (Inl LightNotFound, initial)
   \<and> spec_kind LightNotFound \<noteq> InvalidArgument"
  by (simp add: createGroup_def verifyLightExists_def initial_def)

text \<open>
  C1, amended. If some id of \<open>lightIds\<close> is not a light of the store, \<open>createGroup\<close> fails
  with the light-not-found error and the state is unchanged (no group, counter not advanced).
  If every id exists, the call returns the value of the group id counter, stores under that id
  a group with this id, the given name and exactly the given member list, advances the counter
  by one and changes nothing else.
\<close>

theorem createGroup_all_or_nothing:
  "((\<exists>i \<in> set ids. lights s i = None) \<longrightarrow>
      createGroup nm ids s = (Inl LightNotFound, s) \<and> spec_kind LightNotFound = NotFound)
   \<and> ((\<forall>i \<in> set ids. lights s i \<noteq> None) \<longrightarrow>
      (\<exists>s'. createGroup nm ids s = (Inr (groupIdCounter s), s')
         \<and> groups s' (groupIdCounter s) = Some \<lparr>idG = groupIdCounter s, name = nm, lightIds = ids\<rparr>
         \<and> (\<forall>k. k \<noteq> groupIdCounter s \<longrightarrow> groups s' k = groups s k)
         \<and> groupIdCounter s' = groupIdCounter s + 1
         \<and> lights s' = lights s \<and> lightIdCounter s' = lightIdCounter s))"
proof (intro conjI impI)
  assume "\<exists>i \<in> set ids. lights s i = None"
  then show "createGroup nm ids s = (Inl LightNotFound, s)"
    by (simp add: createGroup_def verifyEach_missing)
next
  show "spec_kind LightNotFound = NotFound" by simp
next
  assume "\<forall>i \<in> set ids. lights s i \<noteq> None"
  then have "verifyEach s ids = Inr ()" by (rule verifyEach_present)
  then show "\<exists>s'. createGroup nm ids s = (Inr (groupIdCounter s), s')
         \<and> groups s' (groupIdCounter s) = Some \<lparr>idG = groupIdCounter s, name = nm, lightIds = ids\<rparr>
         \<and> (\<forall>k. k \<noteq> groupIdCounter s \<longrightarrow> groups s' k = groups s k)
         \<and> groupIdCounter s' = groupIdCounter s + 1
         \<and> lights s' = lights s \<and> lightIdCounter s' = lightIdCounter s"
    by (simp add: createGroup_def Let_def)
qed

text \<open>
  C1, amended, at the seeded service: with the unknown light 999 nothing happens; with lights
  1 and 2 the group gets id 1 and the member list \<open>[1, 2]\<close>, and the counter becomes 2.
\<close>

theorem createGroup_all_or_nothing_witness:
  "lights initial 999 = None
   \<and> createGroup ''G'' [1, 999] initial = (Inl LightNotFound, initial)
   \<and> lights initial 1 \<noteq> None \<and> lights initial 2 \<noteq> None
   \<and> fst (createGroup ''G'' [1, 2] initial) = Inr 1
   \<and> groups (snd (createGroup ''G'' [1, 2] initial)) 1
       = Some \<lparr>idG = 1, name = ''G'', lightIds = [1, 2]\<rparr>
   \<and> groupIdCounter (snd (createGroup ''G'' [1, 2] initial)) = 2"
proof -
  have a: "lights initial 999 = None" "lights initial 1 \<noteq> None" "lights initial 2 \<noteq> None"
    by (simp_all add: initial_def)
  then have b: "\<exists>i \<in> set [1, 999]. lights initial i = None"
    and c: "\<forall>i \<in> set [1, 2]. lights initial i \<noteq> None"
    by simp_all
  have d: "groupIdCounter initial = 1"
    by (simp add: initial_def)
  from a b c createGroup_all_or_nothing [of "[1, 999]" initial "''G''"]
    createGroup_all_or_nothing [of "[1, 2]" initial "''G''"]
  show ?thesis unfolding d by auto
qed

text \<open>
  C3. \<open>controlGroup\<close> fails with the group-not-found error, changing nothing, where the
  group is absent. Where the group exists and all its members do, every member gets the
  status of the action and nothing else changes. Where the member list is \<open>before @ m # rest\<close>
  with all of \<open>before\<close> present and \<open>m\<close> absent, the call fails with the light-not-found
  error at \<open>m\<close>, and the state it leaves has the lights of \<open>before\<close> in the new status:
  nothing is rolled back, and no light outside \<open>before\<close> is touched.
\<close>

theorem controlGroup_fail_fast:
  "(groups s groupId = None \<longrightarrow>
      controlGroup groupId a s = (Inl GroupNotFound, s) \<and> spec_kind GroupNotFound = NotFound)
   \<and> (groups s groupId = Some g \<and> (\<forall>i \<in> set (lightIds g). lights s i \<noteq> None) \<longrightarrow>
      controlGroup groupId a s = (Inr (), s\<lparr>lights := switched a (set (lightIds g)) (lights s)\<rparr>)
      \<and> (\<forall>i \<in> set (lightIds g).
            map_option status (lights (snd (controlGroup groupId a s)) i) = Some a))
   \<and> (groups s groupId = Some g \<and> lightIds g = before @ m # rest
        \<and> (\<forall>i \<in> set before. lights s i \<noteq> None) \<and> lights s m = None \<longrightarrow>
      controlGroup groupId a s = (Inl LightNotFound, s\<lparr>lights := switched a (set before) (lights s)\<rparr>)
      \<and> spec_kind LightNotFound = NotFound
      \<and> (\<forall>i \<in> set before.
            map_option status (lights (snd (controlGroup groupId a s)) i) = Some a)
      \<and> (\<forall>j. j \<notin> set before \<longrightarrow> lights (snd (controlGroup groupId a s)) j = lights s j))"
proof (intro conjI impI)
  assume "groups s groupId = None"
  then show "controlGroup groupId a s = (Inl GroupNotFound, s)"
    by (simp add: controlGroup_def)
next
  show "spec_kind GroupNotFound = NotFound" and "spec_kind LightNotFound = NotFound"
    by simp_all
next
  assume h: "groups s groupId = Some g \<and> (\<forall>i \<in> set (lightIds g). lights s i \<noteq> None)"
  then show r: "controlGroup groupId a s
      = (Inr (), s\<lparr>lights := switched a (set (lightIds g)) (lights s)\<rparr>)"
    by (simp add: controlGroup_def controlEach_present)
  from h show "\<forall>i \<in> set (lightIds g).
      map_option status (lights (snd (controlGroup groupId a s)) i) = Some a"
    unfolding r by (auto simp: switched_def)
next
  assume h: "groups s groupId = Some g \<and> lightIds g = before @ m # rest
        \<and> (\<forall>i \<in> set before. lights s i \<noteq> None) \<and> lights s m = None"
  let ?s1 = "s\<lparr>lights := switched a (set before) (lights s)\<rparr>"
  have pre: "controlEach a before s = (Inr (), ?s1)"
    using h by (simp add: controlEach_present)
  have "lights ?s1 m = None" using h by (simp add: switched_def)
  then have "controlEach a (m # rest) ?s1 = (Inl LightNotFound, ?s1)"
    by (rule controlEach_missing)
  with pre h show r: "controlGroup groupId a s = (Inl LightNotFound, ?s1)"
    by (simp add: controlGroup_def controlEach_append)
  from h show "\<forall>i \<in> set before.
      map_option status (lights (snd (controlGroup groupId a s)) i) = Some a"
    unfolding r by (auto simp: switched_def)
  show "\<forall>j. j \<notin> set before \<longrightarrow> lights (snd (controlGroup groupId a s)) j = lights s j"
    unfolding r by (simp add: switched_def)
qed

text \<open>
  C3, on concrete states. The seeded service has no group 5. In \<open>dangling\<close>, group 1 lists
  1, 9, 2 and light 9 is missing: switching the group on fails at 9, light 1 is on
  afterwards and light 2 is still off. In \<open>doubled\<close> all members exist and the call succeeds.
\<close>

theorem controlGroup_fail_fast_witness:
  "groups initial 5 = None
   \<and> controlGroup 5 On initial = (Inl GroupNotFound, initial)
   \<and> map_option lightIds (groups dangling 1) = Some ([1] @ 9 # [2])
   \<and> lights dangling 1 \<noteq> None \<and> lights dangling 9 = None
   \<and> fst (controlGroup 1 On dangling) = Inl LightNotFound
   \<and> map_option status (lights (snd (controlGroup 1 On dangling)) 1) = Some On
   \<and> map_option status (lights (snd (controlGroup 1 On dangling)) 2) = Some Off
   \<and> map_option lightIds (groups doubled 1) = Some [1, 1]
   \<and> fst (controlGroup 1 On doubled) = Inr ()
   \<and> map_option status (lights (snd (controlGroup 1 On doubled)) 1) = Some On"
proof -
  let ?g = "\<lparr>idG = 1, name = ''G'', lightIds = [1, 9, 2]\<rparr>"
  let ?d = "\<lparr>idG = 1, name = ''G'', lightIds = [1, 1]\<rparr>"
  have a: "groups initial 5 = None"
    by (simp add: initial_def)
  have b: "groups dangling 1 = Some ?g" "lightIds ?g = [1] @ 9 # [2]"
    "\<forall>i \<in> set [1]. lights dangling i \<noteq> None" "lights dangling 9 = None"
    "map_option status (lights dangling 2) = Some Off"
    by (simp_all add: dangling_def initial_def defaultLight_def)
  have c: "groups doubled 1 = Some ?d" "\<forall>i \<in> set (lightIds ?d). lights doubled i \<noteq> None"
    by (simp_all add: doubled_def createGroup_def verifyLightExists_def initial_def)
  from a controlGroup_fail_fast [where s = initial and groupId = 5 and a = On]
  have 1: "controlGroup 5 On initial = (Inl GroupNotFound, initial)"
    by simp
  from b controlGroup_fail_fast [where s = dangling and groupId = 1 and a = On and g = ?g
      and before = "[1]" and m = 9 and rest = "[2]"]
  have r: "controlGroup 1 On dangling
           = (Inl LightNotFound, dangling\<lparr>lights := switched On (set [1]) (lights dangling)\<rparr>)"
    and st: "\<forall>i \<in> set [1]. map_option status (lights (snd (controlGroup 1 On dangling)) i) = Some On"
    and fr: "\<forall>j. j \<notin> set [1] \<longrightarrow> lights (snd (controlGroup 1 On dangling)) j = lights dangling j"
    by blast+
  from fr have "lights (snd (controlGroup 1 On dangling)) 2 = lights dangling 2"
    by simp
  with r st b(5) have 2: "fst (controlGroup 1 On dangling) = Inl LightNotFound"
    "map_option status (lights (snd (controlGroup 1 On dangling)) 1) = Some On"
    "map_option status (lights (snd (controlGroup 1 On dangling)) 2) = Some Off"
    by simp_all
  from c controlGroup_fail_fast [where s = doubled and groupId = 1 and a = On and g = ?d]
  have r': "controlGroup 1 On doubled
            = (Inr (), doubled\<lparr>lights := switched On (set (lightIds ?d)) (lights doubled)\<rparr>)"
    and st': "\<forall>i \<in> set (lightIds ?d).
                map_option status (lights (snd (controlGroup 1 On doubled)) i) = Some On"
    by blast+
  then have 3: "fst (controlGroup 1 On doubled) = Inr ()"
    "map_option status (lights (snd (controlGroup 1 On doubled)) 1) = Some On"
    by simp_all
  from a b c 1 2 3 show ?thesis by simp
qed

text \<open>
  C4. Where light \<open>i\<close> exists, \<open>deleteLightFromGroup i\<close> (the deletion of a light from
  the system) succeeds; afterwards \<open>getLight i\<close> finds nothing, every other light is as
  before, and each group's member list is its old list with \<open>i\<close> filtered out, so that no
  group lists \<open>i\<close>. Where light \<open>i\<close> is absent the call fails with the light-not-found
  error and the state is unchanged.
\<close>

theorem deleteLight_purges:
  "(lights s i = Some l \<longrightarrow>
      (\<exists>s'. deleteLightFromGroup i s = (Inr (), s')
         \<and> getLight i s' = None
         \<and> (\<forall>j. j \<noteq> i \<longrightarrow> lights s' j = lights s j)
         \<and> (\<forall>k. map_option lightIds (groups s' k)
                = map_option (\<lambda>g. filter (\<lambda>j. j \<noteq> i) (lightIds g)) (groups s k))
         \<and> (\<forall>k g'. groups s' k = Some g' \<longrightarrow> i \<notin> set (lightIds g'))
         \<and> groupIdCounter s' = groupIdCounter s \<and> lightIdCounter s' = lightIdCounter s))
   \<and> (lights s i = None \<longrightarrow>
      deleteLightFromGroup i s = (Inl LightNotFound, s) \<and> spec_kind LightNotFound = NotFound)"
  by (auto simp: deleteLightFromGroup_def verify_Some verify_None getLight_def
      map_option_case split: option.splits)

text \<open>
  C4, on concrete states: deleting light 1 from \<open>doubled\<close>, whose group 1 lists it twice,
  leaves that group empty and the light gone; deleting the absent light 9 from the seeded
  service fails and changes nothing.
\<close>

theorem deleteLight_purges_witness:
  "lights doubled 1 \<noteq> None
   \<and> map_option lightIds (groups doubled 1) = Some [1, 1]
   \<and> fst (deleteLightFromGroup 1 doubled) = Inr ()
   \<and> getLight 1 (snd (deleteLightFromGroup 1 doubled)) = None
   \<and> map_option lightIds (groups (snd (deleteLightFromGroup 1 doubled)) 1) = Some []
   \<and> lights initial 9 = None
   \<and> deleteLightFromGroup 9 initial = (Inl LightNotFound, initial)"
proof -
  have a: "lights doubled 1 = Some (defaultLight 1)"
    "map_option lightIds (groups doubled 1) = Some [1, 1]"
    by (simp_all add: doubled_def createGroup_def verifyLightExists_def initial_def)
  have b: "lights initial 9 = None"
    by (simp add: initial_def)
  from a deleteLight_purges [of doubled 1 "defaultLight 1"]
  obtain s' where s': "deleteLightFromGroup 1 doubled = (Inr (), s')"
    "getLight 1 s' = None"
    "\<forall>k. map_option lightIds (groups s' k)
          = map_option (\<lambda>g. filter (\<lambda>j. j \<noteq> 1) (lightIds g)) (groups doubled k)"
    by blast
  from s'(3) a(2) have "map_option lightIds (groups s' 1) = Some []"
    by (cases "groups doubled 1") auto
  with s' a b deleteLight_purges [of initial 9] show ?thesis
    by simp
qed

text \<open>
  C9 as stated does not hold. In \<open>doubled\<close>, reached from the seeded service by
  \<open>createGroup("G", [1, 1])\<close>, group 1 and light 1 exist; both calls of
  \<open>addLightToGroup(1, 1)\<close> succeed and leave the member list \<open>[1, 1]\<close>, which lists light
  1 twice.
\<close>

theorem addLightToGroup_keeps_duplicates:
  "groups doubled 1 \<noteq> None \<and> lights doubled 1 \<noteq> None
   \<and> fst (addLightToGroup 1 1 doubled) = Inr ()
   \<and> fst (addLightToGroup 1 1 (snd (addLightToGroup 1 1 doubled))) = Inr ()
   \<and> map_option lightIds (groups (snd (addLightToGroup 1 1 (snd (addLightToGroup 1 1 doubled)))) 1)
       = Some [1, 1]
   \<and> \<not> distinct [1, 1 :: int]"
  by (simp add: doubled_def createGroup_def addLightToGroup_def verifyLightExists_def initial_def)

text \<open>
  C9, amended. Where group and light both exist, \<open>addLightToGroup\<close> succeeds, and a second
  call in the state it leaves succeeds and changes nothing. The member list of the group then
  contains the light; it is free of duplicates if it was so before the calls, and in general
  the light occurs in it as often as before, or once if it did not occur.
\<close>

theorem addLightToGroup_twice:
  "groups s groupId = Some g \<and> lights s lightId = Some l \<longrightarrow>
     (\<exists>s1 g1. addLightToGroup groupId lightId s = (Inr (), s1)
        \<and> addLightToGroup groupId lightId s1 = (Inr (), s1)
        \<and> groups s1 groupId = Some g1
        \<and> lightId \<in> set (lightIds g1)
        \<and> (distinct (lightIds g) \<longrightarrow> distinct (lightIds g1))
        \<and> count_list (lightIds g1) lightId = max 1 (count_list (lightIds g) lightId))"
proof
  assume h: "groups s groupId = Some g \<and> lights s lightId = Some l"
  show "\<exists>s1 g1. addLightToGroup groupId lightId s = (Inr (), s1)
        \<and> addLightToGroup groupId lightId s1 = (Inr (), s1)
        \<and> groups s1 groupId = Some g1
        \<and> lightId \<in> set (lightIds g1)
        \<and> (distinct (lightIds g) \<longrightarrow> distinct (lightIds g1))
        \<and> count_list (lightIds g1) lightId = max 1 (count_list (lightIds g) lightId)"
  proof (cases "lightId \<in> set (lightIds g)")
    case True
    then have "0 < count_list (lightIds g) lightId"
      using count_list_0_iff [of "lightIds g" lightId] by auto
    with True h show ?thesis
      by (auto simp: addLightToGroup_def verify_Some max_def)
  next
    case False
    then have "count_list (lightIds g) lightId = 0"
      by (simp add: count_list_0_iff)
    with False h show ?thesis
      by (auto simp: addLightToGroup_def verify_Some)
  qed
qed

text \<open>
  C9, amended, on a concrete state: after \<open>createGroup("G", [1])\<close> on the seeded service,
  adding light 2 to group 1 twice gives the member list \<open>[1, 2]\<close> at the first call and
  leaves it so at the second.
\<close>

theorem addLightToGroup_twice_witness:
  "map_option lightIds (groups (snd (createGroup ''G'' [1] initial)) 1) = Some [1]
   \<and> lights (snd (createGroup ''G'' [1] initial)) 2 \<noteq> None
   \<and> fst (addLightToGroup 1 2 (snd (createGroup ''G'' [1] initial))) = Inr ()
   \<and> addLightToGroup 1 2 (snd (addLightToGroup 1 2 (snd (createGroup ''G'' [1] initial))))
       = (Inr (), snd (addLightToGroup 1 2 (snd (createGroup ''G'' [1] initial))))
   \<and> map_option lightIds (groups (snd (addLightToGroup 1 2 (snd (createGroup ''G'' [1] initial)))) 1)
       = Some [1, 2]"
proof -
  let ?s = "snd (createGroup ''G'' [1] initial)"
  let ?g = "\<lparr>idG = 1, name = ''G'', lightIds = [1]\<rparr>"
  have a: "groups ?s 1 = Some ?g" "lights ?s 2 = Some (defaultLight 2)"
    by (simp_all add: createGroup_def verifyLightExists_def initial_def)
  have b: "map_option lightIds (groups (snd (addLightToGroup 1 2 ?s)) 1) = Some [1, 2]"
    by (simp add: createGroup_def addLightToGroup_def verifyLightExists_def initial_def)
  from a addLightToGroup_twice [where s = ?s and groupId = 1 and lightId = 2 and g = ?g
      and l = "defaultLight 2"]
  obtain s1 where "addLightToGroup 1 2 ?s = (Inr (), s1)" "addLightToGroup 1 2 s1 = (Inr (), s1)"
    by blast
  then have "fst (addLightToGroup 1 2 ?s) = Inr ()"
    "addLightToGroup 1 2 (snd (addLightToGroup 1 2 ?s)) = (Inr (), snd (addLightToGroup 1 2 ?s))"
    by simp_all
  with a b show ?thesis by simp
qed

section \<open>Failures of scheduling\<close>

text \<open>
  C8. \<open>scheduleAction\<close> fails with the light-not-found error where the light is absent when
  the call is made, whatever the time string. Where the light exists and the time string
  parses to a time strictly before the clock reading, the delay is negative and the call fails
  with the scheduled-time error (an invalid-argument failure). A fire time before the clock
  reading makes the call fail in every state. The call leaves the state, and so the status of
  the light, exactly as it was, in these failures as in every other outcome.
\<close>

theorem scheduleAction_failures:
  "(lights s i = None \<longrightarrow>
      scheduleAction now parse i time a s = (Inl LightNotFound, s)
      \<and> spec_kind LightNotFound = NotFound)
   \<and> (lights s i = Some l \<and> parse time = Some fireTime \<and> fireTime < now \<longrightarrow>
      calculateDelay now parse time = Some (fireTime - now) \<and> fireTime - now < 0
      \<and> scheduleAction now parse i time a s = (Inl ScheduledTimeNotFuture, s)
      \<and> spec_kind ScheduledTimeNotFuture = InvalidArgument)
   \<and> (parse time = Some fireTime \<and> fireTime < now \<longrightarrow>
      (\<exists>e. scheduleAction now parse i time a s = (Inl e, s)))
   \<and> snd (scheduleAction now parse i time a s) = s"
  by (auto simp: scheduleAction_def calculateDelay_def verify_Some verify_None Let_def
      verifyLightExists_def split: option.splits sum.splits)

text \<open>
  C8, at the seeded service with the clock at 5000 and a time string that parses to 1000:
  scheduling for the absent light 7 is a not-found failure, scheduling for light 1 fails
  because the time is past, and light 1 is still off.
\<close>

theorem scheduleAction_failures_witness:
  "lights initial 7 = None
   \<and> scheduleAction 5000 (\<lambda>_. Some 1000) 7 ''t'' On initial = (Inl LightNotFound, initial)
   \<and> lights initial 1 = Some (defaultLight 1) \<and> (1000::int) < 5000
   \<and> scheduleAction 5000 (\<lambda>_. Some 1000) 1 ''t'' On initial = (Inl ScheduledTimeNotFuture, initial)
   \<and> map_option status
        (lights (snd (scheduleAction 5000 (\<lambda>_. Some 1000) 1 ''t'' On initial)) 1) = Some Off"
proof -
  have a: "lights initial 7 = None" "lights initial 1 = Some (defaultLight 1)"
    "map_option status (lights initial 1) = Some Off"
    by (simp_all add: initial_def defaultLight_def)
  from a
    scheduleAction_failures [where s = initial and i = 7 and now = 5000
      and parse = "\<lambda>_. Some 1000" and time = "''t''" and a = On]
    scheduleAction_failures [where s = initial and i = 1 and now = 5000
      and parse = "\<lambda>_. Some 1000" and time = "''t''" and a = On and l = "defaultLight 1"
      and fireTime = 1000]
  show ?thesis by simp
qed

section \<open>Properties of every reachable state\<close>

text \<open>One call keeps referential integrity.\<close>

lemma exec_members_exist:
  assumes "members_exist s"
  shows "members_exist (snd (exec parse c s))"
proof (cases c)
  case (CreateGroup nm ids)
  show ?thesis
  proof (cases "verifyEach s ids")
    case (Inl e)
    with assms CreateGroup show ?thesis by (simp add: returning_def createGroup_def)
  next
    case (Inr u)
    from verifyEach_Inr [OF Inr] assms CreateGroup Inr show ?thesis
      by (auto simp: returning_def createGroup_def members_exist_def Let_def)
  qed
next
  case (ControlGroup k a)
  with assms controlGroup_frame [of k a s] show ?thesis
    by (simp add: returning_def members_exist_def)
next
  case (DeleteLightFromGroup i)
  with assms show ?thesis
    by (fastforce simp: returning_def deleteLightFromGroup_def members_exist_def
        verifyLightExists_def split: option.splits)
next
  case (AddLightToGroup k i)
  with assms show ?thesis
    by (fastforce simp: returning_def addLightToGroup_def members_exist_def
        verifyLightExists_def split: option.splits if_splits)
next
  case (RemoveLightFromGroup k i)
  with assms show ?thesis
    by (fastforce simp: returning_def removeLightFromGroup_def members_exist_def
        split: option.splits if_splits)
next
  case (DeleteGroup k)
  with assms show ?thesis
    by (fastforce simp: returning_def deleteGroup_def members_exist_def
        split: option.splits if_splits)
next
  case (Fire t)
  with assms show ?thesis
    by (auto simp: returning_def fire_def switch_eq members_exist_def split: option.splits)
qed (use assms in \<open>auto simp: op_defs members_exist_def verifyLightExists_def Let_def
        split: option.splits if_splits\<close>)

lemma run_members_exist: "members_exist s \<Longrightarrow> members_exist (snd (run parse cs s))"
proof (induction cs arbitrary: s)
  case Nil
  then show ?case by simp
next
  case (Cons c cs)
  from Cons.prems have "members_exist (snd (exec parse c s))" by (rule exec_members_exist)
  then show ?case unfolding run_snd_Cons by (rule Cons.IH)
qed

lemma initial_members_exist: "members_exist initial"
  by (simp add: members_exist_def initial_def)

text \<open>
  C2. After every sequence of calls on the seeded service (failed calls and timer callbacks
  included), every light id in the member list of any group is a light of the store.
\<close>

theorem referential_integrity: "members_exist (final parse cs)"
  unfolding final_def by (rule run_members_exist [OF initial_members_exist])

text \<open>
  C2, on the sequence \<open>addLight\<close>, \<open>createGroup("Room", [1, 2, 3])\<close>, deletion of light 2:
  group 1 then lists 1 and 3, light 2 is gone, and light 3 exists.
\<close>

theorem referential_integrity_witness:
  "groups (final (\<lambda>_. None) [AddLight, CreateGroup ''Room'' [1, 2, 3], DeleteLightFromGroup 2]) 1
     = Some \<lparr>idG = 1, name = ''Room'', lightIds = [1, 3]\<rparr>
   \<and> lights (final (\<lambda>_. None) [AddLight, CreateGroup ''Room'' [1, 2, 3], DeleteLightFromGroup 2]) 2
     = None
   \<and> lights (final (\<lambda>_. None) [AddLight, CreateGroup ''Room'' [1, 2, 3], DeleteLightFromGroup 2]) 3
     \<noteq> None"
proof -
  let ?s = "final (\<lambda>_. None) [AddLight, CreateGroup ''Room'' [1, 2, 3], DeleteLightFromGroup 2]"
  let ?g = "\<lparr>idG = 1, name = ''Room'', lightIds = [1, 3]\<rparr>"
  have g: "groups ?s 1 = Some ?g" and l: "lights ?s 2 = None"
    by (simp_all add: final_def op_defs verifyLightExists_def initial_def Let_def)
  from referential_integrity [of "\<lambda>_. None"
      "[AddLight, CreateGroup ''Room'' [1, 2, 3], DeleteLightFromGroup 2]"] g
  have "\<forall>i \<in> set (lightIds ?g). lights ?s i \<noteq> None"
    unfolding members_exist_def by blast
  then have "lights ?s 3 \<noteq> None" by simp
  with g l show ?thesis by simp
qed

text \<open>The light id counter moves only in \<open>addLight\<close>, which returns its old value.\<close>

lemma exec_counter:
  "lightIdCounter (snd (exec parse c s))
     = (if c = AddLight then lightIdCounter s + 1 else lightIdCounter s)"
proof (cases c)
  case (ControlGroup k a)
  with controlGroup_frame [of k a s] show ?thesis by (simp add: returning_def)
next
  case (Fire t)
  then show ?thesis
    by (simp add: returning_def fire_def switch_eq split: option.splits)
qed (auto simp: op_defs verifyLightExists_def Let_def split: option.splits sum.splits)

lemma exec_LightId:
  "fst (exec parse c s) = Inr (LightId i) \<Longrightarrow> c = AddLight \<and> i = lightIdCounter s"
  by (cases c) (auto simp: returning_def addLight_def Let_def map_sum_def split: sum.splits)

lemma exec_AddLight: "fst (exec parse AddLight s) = Inr (LightId (lightIdCounter s))"
  by (simp add: returning_def addLight_def Let_def)

lemma allocated_Cons:
  "allocated (r # rs) = (case r of Inr (LightId i) \<Rightarrow> i # allocated rs | _ \<Rightarrow> allocated rs)"
  by (cases "(r # rs)" rule: allocated.cases) auto

lemma exec_ids_below:
  assumes "ids_below_counter s"
  shows "ids_below_counter (snd (exec parse c s))"
proof (cases c)
  case (ControlGroup k a)
  with assms controlGroup_frame [of k a s] show ?thesis
    by (simp add: returning_def ids_below_counter_def)
next
  case (Fire t)
  with assms show ?thesis
    by (auto simp: returning_def fire_def switch_eq ids_below_counter_def split: option.splits)
next
  case AddLight
  have "i < lightIdCounter s + 1"
    if "((lights s)(lightIdCounter s \<mapsto> defaultLight (lightIdCounter s))) i \<noteq> None" for i
  proof (cases "i = lightIdCounter s")
    case True
    then show ?thesis by simp
  next
    case False
    with that assms have "i < lightIdCounter s" by (simp add: ids_below_counter_def)
    then show ?thesis by simp
  qed
  with AddLight show ?thesis
    by (simp add: returning_def addLight_def Let_def ids_below_counter_def)
qed (use assms in \<open>auto simp: op_defs ids_below_counter_def verifyLightExists_def Let_def
        split: option.splits if_splits sum.splits\<close>)

lemma run_ids_below: "ids_below_counter s \<Longrightarrow> ids_below_counter (snd (run parse cs s))"
proof (induction cs arbitrary: s)
  case Nil
  then show ?case by simp
next
  case (Cons c cs)
  from Cons.prems have "ids_below_counter (snd (exec parse c s))" by (rule exec_ids_below)
  then show ?case unfolding run_snd_Cons by (rule Cons.IH)
qed

lemma initial_ids_below: "ids_below_counter initial"
  by (simp add: ids_below_counter_def initial_def)

text \<open>
  From any state, the ids returned by the \<open>addLight\<close> calls of a sequence increase strictly
  and start at the counter of that state or above.
\<close>

lemma allocated_bounds:
  "sorted_wrt (<) (allocated (fst (run parse cs s)))
   \<and> (\<forall>i \<in> set (allocated (fst (run parse cs s))). lightIdCounter s \<le> i)"
proof (induction cs arbitrary: s)
  case Nil
  show ?case by simp
next
  case (Cons c cs)
  let ?s1 = "snd (exec parse c s)"
  note IH = Cons.IH [of ?s1]
  show ?case
  proof (cases "c = AddLight")
    case True
    then have "lightIdCounter ?s1 = lightIdCounter s + 1" unfolding exec_counter by simp
    moreover have "fst (exec parse c s) = Inr (LightId (lightIdCounter s))"
      unfolding True by (rule exec_AddLight)
    ultimately show ?thesis
      using IH unfolding run_fst_Cons by auto
  next
    case False
    then have "\<And>i. fst (exec parse c s) \<noteq> Inr (LightId i)"
      using exec_LightId by blast
    then have "allocated (fst (exec parse c s) # rs) = allocated rs" for rs
      by (auto simp: allocated_Cons split: sum.splits ret.splits)
    moreover from False have "lightIdCounter ?s1 = lightIdCounter s" unfolding exec_counter by simp
    ultimately show ?thesis using IH unfolding run_fst_Cons by simp
  qed
qed

text \<open>
  C6. In every sequence of calls on the seeded service, whatever is deleted in between, the
  ids returned by the \<open>addLight\<close> calls are strictly increasing, hence pairwise distinct,
  and each is greater than 2. After the sequence, one more \<open>addLight\<close> returns an id that no
  light of the store has and that is greater than the id of every light in the store.
\<close>

theorem addLight_ids_increase:
  "sorted_wrt (<) (allocated (fst (run parse cs initial)))
   \<and> distinct (allocated (fst (run parse cs initial)))
   \<and> (\<forall>i \<in> set (allocated (fst (run parse cs initial))). 2 < i)
   \<and> (\<exists>i s'. addLight (final parse cs) = (Inr i, s') \<and> lights (final parse cs) i = None
        \<and> (\<forall>j. lights (final parse cs) j \<noteq> None \<longrightarrow> j < i))"
proof -
  have c: "lightIdCounter initial = 3" by (simp add: initial_def)
  from allocated_bounds [of parse cs initial]
  have s: "sorted_wrt (<) (allocated (fst (run parse cs initial)))"
    and b: "\<forall>i \<in> set (allocated (fst (run parse cs initial))). 3 \<le> i"
    unfolding c by simp_all
  from s have d: "distinct (allocated (fst (run parse cs initial)))"
    by (simp add: strict_sorted_iff)
  have "ids_below_counter (final parse cs)"
    unfolding final_def by (rule run_ids_below [OF initial_ids_below])
  then have f: "\<exists>i s'. addLight (final parse cs) = (Inr i, s') \<and> lights (final parse cs) i = None
        \<and> (\<forall>j. lights (final parse cs) j \<noteq> None \<longrightarrow> j < i)"
    by (auto simp: addLight_def ids_below_counter_def Let_def)
  from s d b f show ?thesis by auto
qed

text \<open>
  C6, on the sequence \<open>addLight\<close>, deletion of light 3, \<open>addLight\<close>: the calls return 3 and
  then 4, not 3 again.
\<close>

theorem addLight_ids_increase_witness:
  "allocated (fst (run (\<lambda>_. None) [AddLight, DeleteLightFromGroup 3, AddLight] initial)) = [3, 4]
   \<and> lights (final (\<lambda>_. None) [AddLight, DeleteLightFromGroup 3]) 3 = None
   \<and> sorted_wrt (<) (allocated (fst (run (\<lambda>_. None) [AddLight, DeleteLightFromGroup 3, AddLight] initial)))
   \<and> 4 \<in> set (allocated (fst (run (\<lambda>_. None) [AddLight, DeleteLightFromGroup 3, AddLight] initial)))
   \<and> (2::int) < 4"
proof -
  have a: "allocated (fst (run (\<lambda>_. None) [AddLight, DeleteLightFromGroup 3, AddLight] initial)) = [3, 4]"
    and b: "lights (final (\<lambda>_. None) [AddLight, DeleteLightFromGroup 3]) 3 = None"
    by (simp_all add: final_def op_defs verifyLightExists_def initial_def Let_def)
  from addLight_ids_increase [of "\<lambda>_. None" "[AddLight, DeleteLightFromGroup 3, AddLight]"]
  have "sorted_wrt (<) (allocated (fst (run (\<lambda>_. None) [AddLight, DeleteLightFromGroup 3, AddLight] initial)))"
    by blast
  with a b show ?thesis by simp
qed

text \<open>
  A call keeps the member lists free of duplicates, unless it is a \<open>createGroup\<close> whose
  argument already has one.
\<close>

lemma exec_members_distinct:
  assumes "members_distinct s" and "\<And>nm ids. c = CreateGroup nm ids \<Longrightarrow> distinct ids"
  shows "members_distinct (snd (exec parse c s))"
proof (cases c)
  case (ControlGroup k a)
  with assms controlGroup_frame [of k a s] show ?thesis
    by (simp add: returning_def members_distinct_def)
next
  case (Fire t)
  with assms show ?thesis
    by (auto simp: returning_def fire_def switch_eq members_distinct_def split: option.splits)
next
  case (CreateGroup nm ids)
  with assms show ?thesis
    by (auto simp: returning_def createGroup_def members_distinct_def Let_def split: sum.splits)
next
  case (DeleteLightFromGroup i)
  with assms show ?thesis
    by (fastforce simp: returning_def deleteLightFromGroup_def members_distinct_def
        split: option.splits sum.splits)
qed (use assms in \<open>auto simp: op_defs members_distinct_def verifyLightExists_def Let_def
        split: option.splits if_splits sum.splits\<close>)

lemma run_members_distinct:
  "members_distinct s \<Longrightarrow> \<forall>nm ids. CreateGroup nm ids \<in> set cs \<longrightarrow> distinct ids
     \<Longrightarrow> members_distinct (snd (run parse cs s))"
proof (induction cs arbitrary: s)
  case Nil
  then show ?case by simp
next
  case (Cons c cs)
  have "members_distinct (snd (exec parse c s))"
  proof (rule exec_members_distinct)
    show "members_distinct s" by fact
  next
    fix nm ids
    assume "c = CreateGroup nm ids"
    with Cons.prems(2) show "distinct ids" by simp
  qed
  moreover have "\<forall>nm ids. CreateGroup nm ids \<in> set cs \<longrightarrow> distinct ids"
    using Cons.prems(2) by simp
  ultimately show ?case unfolding run_snd_Cons by (rule Cons.IH)
qed

text \<open>
  C5 fails on the code. \<open>createGroup("G", [1, 1])\<close> on the seeded service succeeds and
  stores the member list \<open>[1, 1]\<close>: \<open>createGroup\<close> checks that each id exists but not that
  the ids differ, whereas \<open>addLightToGroup\<close> refuses to list a light twice.
\<close>

theorem createGroup_duplicate_members:
  "fst (run (\<lambda>_. None) [CreateGroup ''G'' [1, 1]] initial) = [Inr (GroupId 1)]
   \<and> map_option lightIds (groups (final (\<lambda>_. None) [CreateGroup ''G'' [1, 1]]) 1) = Some [1, 1]
   \<and> map_option (\<lambda>g. distinct (lightIds g)) (groups (final (\<lambda>_. None) [CreateGroup ''G'' [1, 1]]) 1)
       = Some False"
  by (simp add: final_def returning_def createGroup_def verifyLightExists_def initial_def)

end
